theory Spec2Isabelle
  imports Main "HOL-Library.Multiset"
begin

section \<open>Data of the chess library and of the two ports\<close>

text \<open>
  The program (\<^verbatim>\<open>main.py\<close>) is written against python-chess, a UCI engine and the
  Lichess opening explorer. None of the three is part of the repository, so the
  chess rules, the engine and the explorer are parameters of the model; only the
  data they exchange with the program is fixed here.

  A move is python-chess's \<^verbatim>\<open>Move\<close> dataclass: equality is equality of the fields.
\<close>

datatype color = White | Black

record move =
  from_square :: nat
  to_square :: nat
  promotion :: "nat option"
  drop_piece :: "nat option"

text \<open>
  The exceptions the code can meet: a missing dictionary key, a pop from an empty
  stack, the faults of an engine call (protocol error, dead process, timeout) and
  a failed HTTP request.
\<close>

datatype exn =
  KeyError | IndexError | EngineError | EngineTerminatedError | TimeoutError | RequestException

text \<open>
  A board is the current position together with the stack that \<^verbatim>\<open>push\<close> fills
  and \<^verbatim>\<open>pop\<close> empties: each entry is the move played and the position it was
  played in. The position itself (pieces, side to move, castling and en-passant
  state, counters) is the type parameter \<open>'s\<close>.
\<close>

record 's board =
  position :: 's
  move_stack :: "(move \<times> 's) list"

text \<open>The operations of python-chess the program calls, as functions of the position.\<close>

record 's chess =
  legal_moves :: "'s \<Rightarrow> move list"
  make_move :: "'s \<Rightarrow> move \<Rightarrow> 's"
  turn :: "'s \<Rightarrow> color"
  board_san :: "'s \<Rightarrow> move \<Rightarrow> string option"
  parse_san :: "'s \<Rightarrow> string \<Rightarrow> move option"
  fen :: "'s \<Rightarrow> string"
  uci :: "move \<Rightarrow> string"

text \<open>
  \<^verbatim>\<open>board.push(move)\<close> remembers the position and plays the move; \<^verbatim>\<open>board.pop()\<close>
  restores the remembered position and raises \<^verbatim>\<open>IndexError\<close> on an empty stack.
  \<^verbatim>\<open>board.copy()\<close> is the identity on values. A move is a transition of the game
  (python-chess does not check its legality, but refuses a move from an empty
  square), so \<open>push\<close> is total here.
\<close>

definition push :: "'s chess \<Rightarrow> 's board \<Rightarrow> move \<Rightarrow> 's board" where
  "push lib b m =
     \<lparr>position = make_move lib (position b) m,
      move_stack = move_stack b @ [(m, position b)]\<rparr>"

definition pop :: "'s board \<Rightarrow> exn + 's board" where
  "pop b =
     (if move_stack b = [] then Inl IndexError
      else Inr \<lparr>position = snd (last (move_stack b)), move_stack = butlast (move_stack b)\<rparr>)"

text \<open>
  An engine score is python-chess's \<^verbatim>\<open>Score\<close> (centipawns, mate in n, mate given)
  seen from the side \<open>pov_turn\<close>. \<^verbatim>\<open>PovScore.white()\<close> negates the score of a
  Black point of view, and \<^verbatim>\<open>score(mate_score=ms)\<close> maps a mate to a capped integer.
\<close>

datatype score = Cp int | Mate int | MateGiven

record pov_score =
  relative :: score
  pov_turn :: color

fun neg_score :: "score \<Rightarrow> score" where
  "neg_score (Cp x) = Cp (- x)"
| "neg_score (Mate n) = (if n = 0 then MateGiven else Mate (- n))"
| "neg_score MateGiven = Mate 0"

definition pov_white :: "pov_score \<Rightarrow> score" where
  "pov_white p = (if pov_turn p = White then relative p else neg_score (relative p))"

fun score_cp :: "int \<Rightarrow> score \<Rightarrow> int" where
  "score_cp ms (Cp x) = x"
| "score_cp ms (Mate n) = (if 0 < n then ms - n else - ms - n)"
| "score_cp ms MateGiven = ms"

text \<open>
  The info dictionary of an analysis: python-chess fills in the keys the engine
  has sent, so \<^verbatim>\<open>"score"\<close> and \<^verbatim>\<open>"pv"\<close> may both be missing. The engine is a
  function of the board it is shown, as a deterministic engine is; an exception of
  the call is \<open>Inl\<close>. The time limit of a call is fixed by the caller and is not
  modelled.
\<close>

record info =
  score :: "pov_score option"
  pv :: "move list option"

record 's engine =
  analyse :: "'s board \<Rightarrow> exn + info"
  analyse_multipv :: "'s board \<Rightarrow> int \<Rightarrow> exn + info list"

section \<open>The criticality evaluator\<close>

text \<open>
  Lines 103-106 and 115-118: an analysis call that raises is replaced by the info
  \<^verbatim>\<open>{"score": PovScore(Cp(0), WHITE)}\<close>.
\<close>

definition neutral_info :: info where
  "neutral_info = \<lparr>score = Some \<lparr>relative = Cp 0, pov_turn = White\<rparr>, pv = None\<rparr>"

definition analyse_or_neutral :: "'s engine \<Rightarrow> 's board \<Rightarrow> info" where
  "analyse_or_neutral eng b = (case analyse eng b of Inl e \<Rightarrow> neutral_info | Inr i \<Rightarrow> i)"

text \<open>
  Lines 107-108 and 119-120: \<^verbatim>\<open>info["score"].white().score(mate_score=10000)\<close>, the
  Score in centipawns from White's point of view. The lookup stands after the
  \<^verbatim>\<open>try\<close>: a dictionary without the key raises \<^verbatim>\<open>KeyError\<close>.
\<close>

definition white_score :: "info \<Rightarrow> exn + int" where
  "white_score i =
     (case score i of None \<Rightarrow> Inl KeyError | Some p \<Rightarrow> Inr (score_cp 10000 (pov_white p)))"

text \<open>
  The Score of a move in a position, as lines 102-108 and 114-120 compute it: the
  Score of the analysis of the board with the move pushed, or the exception of
  the lookup.
\<close>

definition move_score :: "'s chess \<Rightarrow> 's engine \<Rightarrow> 's board \<Rightarrow> move \<Rightarrow> exn + int" where
  "move_score lib eng b m = white_score (analyse_or_neutral eng (push lib b m))"

text \<open>
  Lines 113-122, the loop over the legal moves. Each round pushes the alternative,
  scores it, appends the pair and pops. There is no \<^verbatim>\<open>finally\<close>: an exception
  leaves the loop, and the function, with the alternative still pushed. The
  result is the list of pairs, or the exception, and the board.
\<close>

fun scan_alternatives ::
  "'s chess \<Rightarrow> 's engine \<Rightarrow> 's board \<Rightarrow> move list \<Rightarrow> (move \<times> int) list
     \<Rightarrow> (exn + (move \<times> int) list) \<times> 's board" where
  "scan_alternatives lib eng b [] alternative_scores = (Inr alternative_scores, b)"
| "scan_alternatives lib eng b (alt # alts) alternative_scores =
     (case move_score lib eng b alt of
        Inl e \<Rightarrow> (Inl e, push lib b alt)
      | Inr alt_score \<Rightarrow>
          (case pop (push lib b alt) of
             Inl e \<Rightarrow> (Inl e, push lib b alt)
           | Inr b' \<Rightarrow> scan_alternatives lib eng b' alts (alternative_scores @ [(alt, alt_score)])))"

text \<open>Python's \<^verbatim>\<open>max\<close> of a non-empty sequence, from the left.\<close>

fun py_max :: "int \<Rightarrow> int list \<Rightarrow> int" where
  "py_max x [] = x"
| "py_max x (y # ys) = py_max (if x < y then y else x) ys"

text \<open>
  \<^verbatim>\<open>evaluate_move_criticality(board, move, engine, threshold)\<close>, lines 101-133. The
  result is the verdict \<open>(is_critical, score_diff)\<close> or the exception, and the board
  as the caller finds it afterwards: after an exception, with the move that was
  being scored still pushed.
\<close>

definition evaluate_move_criticality ::
  "'s chess \<Rightarrow> 's engine \<Rightarrow> 's board \<Rightarrow> move \<Rightarrow> int \<Rightarrow> (exn + bool \<times> int) \<times> 's board" where
  "evaluate_move_criticality lib eng board mv threshold =
     (case move_score lib eng board mv of
        Inl e \<Rightarrow> (Inl e, push lib board mv)
      | Inr best_score \<Rightarrow>
          (case pop (push lib board mv) of
             Inl e \<Rightarrow> (Inl e, push lib board mv)
           | Inr b1 \<Rightarrow>
               (case scan_alternatives lib eng b1 (legal_moves lib (position b1)) [] of
                  (Inl e, b2) \<Rightarrow> (Inl e, b2)
                | (Inr alternative_scores, b2) \<Rightarrow>
                    (case filter (\<lambda>(m, s). m \<noteq> mv) alternative_scores of
                       [] \<Rightarrow> (Inr (False, 0), b2)
                     | (m, s) # rest \<Rightarrow>
                         (let best_alternative = py_max s (map snd rest);
                              score_diff = best_score - best_alternative
                          in (Inr (threshold \<le> score_diff, score_diff), b2))))))"

section \<open>The candidate selector\<close>

text \<open>
  The explorer's JSON answer: each entry of \<^verbatim>\<open>"moves"\<close> has the game counts
  \<^verbatim>\<open>white\<close>, \<^verbatim>\<open>draws\<close>, \<^verbatim>\<open>black\<close> and the move text \<^verbatim>\<open>san\<close>, every key
  optional (the code reads them with \<^verbatim>\<open>get\<close>).
\<close>

record move_data =
  white :: "int option"
  draws :: "int option"
  black :: "int option"
  san :: "string option"

record explorer_data =
  moves :: "move_data list option"

text \<open>
  \<^verbatim>\<open>query_lichess_openings(fen)\<close>, lines 57-70: the HTTP request is the parameter
  \<open>http_get\<close>, from the FEN in the URL to the decoded answer or an exception; the
  function returns \<^verbatim>\<open>None\<close> on any exception.
\<close>

definition query_lichess_openings ::
  "(string \<Rightarrow> exn + explorer_data) \<Rightarrow> string \<Rightarrow> explorer_data option" where
  "query_lichess_openings http_get f = (case http_get f of Inl e \<Rightarrow> None | Inr d \<Rightarrow> Some d)"

text \<open>The sort key of lines 83 and 174: a missing count is 0.\<close>

definition total_games :: "move_data \<Rightarrow> int" where
  "total_games x =
     (case white x of None \<Rightarrow> 0 | Some w \<Rightarrow> w) + (case draws x of None \<Rightarrow> 0 | Some d \<Rightarrow> d)
       + (case black x of None \<Rightarrow> 0 | Some l \<Rightarrow> l)"

text \<open>
  \<^verbatim>\<open>sorted(moves, key=..., reverse=True)\<close>: Python's sort is stable, also when
  reversed, and so is \<open>sort_key\<close> on the negated key.
\<close>

definition sorted_by_games :: "move_data list \<Rightarrow> move_data list" where
  "sorted_by_games ms = sort_key (\<lambda>x. - total_games x) ms"

text \<open>
  The slice \<^verbatim>\<open>xs[:n]\<close>: the first \<open>n\<close> elements, and for a negative \<open>n\<close> all but
  the last \<open>- n\<close>.
\<close>

definition py_take :: "int \<Rightarrow> 'a list \<Rightarrow> 'a list" where
  "py_take n xs = (if 0 \<le> n then take (nat n) xs else take (length xs - nat (- n)) xs)"

text \<open>
  Lines 177-184: each entry with a non-empty \<^verbatim>\<open>san\<close> is parsed against the board;
  an entry that does not parse is skipped.
\<close>

fun parse_candidates :: "'s chess \<Rightarrow> 's \<Rightarrow> move_data list \<Rightarrow> move list \<Rightarrow> move list" where
  "parse_candidates lib p [] candidate_moves = candidate_moves"
| "parse_candidates lib p (move_data # rest) candidate_moves =
     (case san move_data of
        None \<Rightarrow> parse_candidates lib p rest candidate_moves
      | Some s \<Rightarrow>
          if s = [] then parse_candidates lib p rest candidate_moves
          else (case parse_san lib p s of
                  None \<Rightarrow> parse_candidates lib p rest candidate_moves
                | Some m \<Rightarrow> parse_candidates lib p rest (candidate_moves @ [m])))"

text \<open>Lines 167-184: the candidates taken from the explorer.\<close>

definition database_candidates ::
  "'s chess \<Rightarrow> (string \<Rightarrow> exn + explorer_data) \<Rightarrow> 's board \<Rightarrow> int \<Rightarrow> move list" where
  "database_candidates lib http_get board top_moves_count =
     (case query_lichess_openings http_get (fen lib (position board)) of
        None \<Rightarrow> []
      | Some data \<Rightarrow>
          (case moves data of
             None \<Rightarrow> []
           | Some ms \<Rightarrow>
               parse_candidates lib (position board)
                 (py_take top_moves_count (sorted_by_games ms)) []))"

text \<open>
  Lines 189-192: the first move of each line of the engine is appended unless it
  is already a candidate; a line without moves is skipped.
\<close>

fun engine_candidates :: "info list \<Rightarrow> move list \<Rightarrow> move list" where
  "engine_candidates [] candidate_moves = candidate_moves"
| "engine_candidates (i # infos) candidate_moves =
     (case pv i of
        None \<Rightarrow> engine_candidates infos candidate_moves
      | Some [] \<Rightarrow> engine_candidates infos candidate_moves
      | Some (m # line) \<Rightarrow>
          if m \<in> set candidate_moves then engine_candidates infos candidate_moves
          else engine_candidates infos (candidate_moves @ [m]))"

text \<open>\<^verbatim>\<open>get_variation_candidates(board, engine, top_moves_count)\<close>, lines 160-195.\<close>

definition get_variation_candidates ::
  "'s chess \<Rightarrow> (string \<Rightarrow> exn + explorer_data) \<Rightarrow> 's engine \<Rightarrow> 's board \<Rightarrow> int \<Rightarrow> move list" where
  "get_variation_candidates lib http_get eng board top_moves_count =
     (let candidate_moves = database_candidates lib http_get board top_moves_count;
          candidate_moves =
            (if int (length candidate_moves) < top_moves_count
             then (case analyse_multipv eng board top_moves_count of
                     Inl e \<Rightarrow> candidate_moves
                   | Inr infos \<Rightarrow> engine_candidates infos candidate_moves)
             else candidate_moves)
      in py_take top_moves_count candidate_moves)"







section \<open>The variation walker\<close>

text \<open>
  \<^verbatim>\<open>generate_plan_explanation\<close>, lines 198-231: the four texts are the four values
  of \<open>plan\<close>; an exception of the analysis or of the score lookup, both inside
  the \<^verbatim>\<open>try\<close>, gives the first.
\<close>

datatype plan = Unclear | White_advantage | Black_advantage | Balanced

definition generate_plan_explanation :: "'s engine \<Rightarrow> 's board \<Rightarrow> plan" where
  "generate_plan_explanation eng b =
     (case analyse eng b of
        Inl e \<Rightarrow> Unclear
      | Inr i \<Rightarrow>
          (case white_score i of
             Inl e \<Rightarrow> Unclear
           | Inr s \<Rightarrow> if 100 < s then White_advantage
                      else if s < - 100 then Black_advantage else Balanced))"

text \<open>Lines 269-272 and 290-293: the SAN of the move, or its UCI text when SAN raises.\<close>

definition san_or_str :: "'s chess \<Rightarrow> 's board \<Rightarrow> move \<Rightarrow> string" where
  "san_or_str lib b m = (case board_san lib (position b) m of None \<Rightarrow> uci lib m | Some s \<Rightarrow> s)"

text \<open>
  Lines 282-299, one round of the loop \<^verbatim>\<open>for i in range(1, variation_depth)\<close>. The
  round asks the engine for its line, evaluates the first move of the line, records
  it and plays it. A missing or empty line leaves the loop, and so does an exception
  anywhere in the round, with the board as the exception left it. The SVG file
  written at the end of the round is not modelled.
\<close>

datatype 's round = Break "'s board" | Recorded "string \<times> bool \<times> int" "'s board"

definition pv_round :: "'s chess \<Rightarrow> 's engine \<Rightarrow> int \<Rightarrow> 's board \<Rightarrow> 's round" where
  "pv_round lib eng threshold board =
     (case analyse eng board of
        Inl e \<Rightarrow> Break board
      | Inr i \<Rightarrow>
          (case pv i of
             None \<Rightarrow> Break board
           | Some [] \<Rightarrow> Break board
           | Some (next_move # line) \<Rightarrow>
               (case evaluate_move_criticality lib eng board next_move threshold of
                  (Inl e, b1) \<Rightarrow> Break b1
                | (Inr (is_crit, score_diff), b1) \<Rightarrow>
                    Recorded (san_or_str lib b1 next_move, is_crit, score_diff)
                      (push lib b1 next_move))))"

text \<open>The loop with \<open>n\<close> rounds left.\<close>

fun follow_pv ::
  "'s chess \<Rightarrow> 's engine \<Rightarrow> int \<Rightarrow> nat \<Rightarrow> 's board \<Rightarrow> (string \<times> bool \<times> int) list
     \<Rightarrow> (string \<times> bool \<times> int) list \<times> 's board" where
  "follow_pv lib eng threshold 0 board move_info_list = (move_info_list, board)"
| "follow_pv lib eng threshold (Suc n) board move_info_list =
     (case pv_round lib eng threshold board of
        Break b \<Rightarrow> (move_info_list, b)
      | Recorded entry b \<Rightarrow> follow_pv lib eng threshold n b (move_info_list @ [entry]))"

text \<open>The dictionary \<^verbatim>\<open>analyze_variation\<close> returns.\<close>

record 's variation =
  moves_san :: "string list"
  critical_info :: "(string \<times> bool \<times> int) list"
  critical_count :: nat
  final_board :: "'s board"
  explanation :: plan

text \<open>
  Lines 264-267: the candidate is evaluated inside a \<^verbatim>\<open>try\<close> whose handler sets
  the verdict \<open>(False, 0)\<close>; the board stays as the failed evaluation left it.
\<close>

definition evaluate_candidate ::
  "'s chess \<Rightarrow> 's engine \<Rightarrow> 's board \<Rightarrow> move \<Rightarrow> int \<Rightarrow> (bool \<times> int) \<times> 's board" where
  "evaluate_candidate lib eng board candidate_move threshold =
     (case evaluate_move_criticality lib eng board candidate_move threshold of
        (Inl e, b) \<Rightarrow> ((False, 0), b)
      | (Inr v, b) \<Rightarrow> (v, b))"

text \<open>
  \<^verbatim>\<open>analyze_variation(start_board, candidate_move, engine, variation_depth, threshold)\<close>,
  lines 247-312: the walk works on a copy of the start board, records and plays the
  candidate, follows the engine for \<^verbatim>\<open>variation_depth - 1\<close> rounds and counts the
  critical entries.
\<close>

definition analyze_variation ::
  "'s chess \<Rightarrow> 's engine \<Rightarrow> 's board \<Rightarrow> move \<Rightarrow> int \<Rightarrow> int \<Rightarrow> 's variation" where
  "analyze_variation lib eng start_board candidate_move variation_depth threshold =
     (let (verdict, board) =
            evaluate_candidate lib eng start_board candidate_move threshold;
          candidate_san = san_or_str lib board candidate_move;
          (move_info_list, board) =
            follow_pv lib eng threshold (nat (variation_depth - 1))
              (push lib board candidate_move) [(candidate_san, fst verdict, snd verdict)]
      in \<lparr>moves_san = map fst move_info_list,
          critical_info = move_info_list,
          critical_count = length (filter (\<lambda>(m, is_crit, d). is_crit) move_info_list),
          final_board = board,
          explanation = generate_plan_explanation eng board\<rparr>)"

section \<open>Predicates used to state the properties\<close>

text \<open>
  The engine's answer on a board is usable: the call raises, and is then scored as
  neutral, or its info has the key \<^verbatim>\<open>"score"\<close>.
\<close>

definition carries_score :: "'s engine \<Rightarrow> 's board \<Rightarrow> bool" where
  "carries_score eng b = (case analyse eng b of Inl e \<Rightarrow> True | Inr i \<Rightarrow> score i \<noteq> None)"


text \<open>
  A round of the walker's loop on this board records nothing: the engine call
  raises, the line is missing or empty, or the evaluation of its first move raises.
\<close>

definition stops_at :: "'s chess \<Rightarrow> 's engine \<Rightarrow> int \<Rightarrow> 's board \<Rightarrow> bool" where
  "stops_at lib eng threshold b =
     (case analyse eng b of
        Inl e \<Rightarrow> True
      | Inr i \<Rightarrow>
          (case pv i of
             None \<Rightarrow> True
           | Some [] \<Rightarrow> True
           | Some (m # line) \<Rightarrow> isl (fst (evaluate_move_criticality lib eng b m threshold))))"

text \<open>
  The moves a board has on its stack above those of an earlier board, oldest
  first, and the names a sequence of moves gets when played from a board.
\<close>

definition moves_since :: "'s board \<Rightarrow> 's board \<Rightarrow> move list" where
  "moves_since start b = map fst (drop (length (move_stack start)) (move_stack b))"

fun san_line :: "'s chess \<Rightarrow> 's board \<Rightarrow> move list \<Rightarrow> string list" where
  "san_line lib b [] = []"
| "san_line lib b (m # ms) = san_or_str lib b m # san_line lib (push lib b m) ms"

text \<open>The score of a move from the point of view of the side that plays it.\<close>

definition for_mover :: "color \<Rightarrow> int \<Rightarrow> int" where
  "for_mover c s = (if c = White then s else - s)"

section \<open>Stub collaborators\<close>

text \<open>
  A small stand-in for the chess rules: a position is the number of plies played,
  White moves at even positions, and the same few moves are legal every time.
\<close>

definition e2e4 :: move where
  "e2e4 = \<lparr>from_square = 12, to_square = 28, promotion = None, drop_piece = None\<rparr>"

definition d2d4 :: move where
  "d2d4 = \<lparr>from_square = 11, to_square = 27, promotion = None, drop_piece = None\<rparr>"

definition e1g1 :: move where
  "e1g1 = \<lparr>from_square = 4, to_square = 6, promotion = None, drop_piece = None\<rparr>"

definition e7e5 :: move where
  "e7e5 = \<lparr>from_square = 52, to_square = 36, promotion = None, drop_piece = None\<rparr>"

definition d7d5 :: move where
  "d7d5 = \<lparr>from_square = 51, to_square = 35, promotion = None, drop_piece = None\<rparr>"

definition stub_san :: "move \<Rightarrow> string option" where
  "stub_san m =
     (if m = e2e4 then Some ''e4'' else if m = d2d4 then Some ''d4''
      else if m = e1g1 then Some ''O-O'' else if m = e7e5 then Some ''e5''
      else if m = d7d5 then Some ''d5'' else None)"

definition stub_parse :: "string \<Rightarrow> move option" where
  "stub_parse t =
     (if t = ''e4'' then Some e2e4 else if t = ''d4'' then Some d2d4
      else if t = ''O-O'' then Some e1g1 else if t = ''0-0'' then Some e1g1
      else None)"

definition stub_chess :: "nat chess" where
  "stub_chess =
     \<lparr>legal_moves = (\<lambda>p. if even p then [e2e4, d2d4, e1g1] else [e7e5, d7d5]),
      make_move = (\<lambda>p m. Suc p),
      turn = (\<lambda>p. if even p then White else Black),
      board_san = (\<lambda>p m. stub_san m),
      parse_san = (\<lambda>p t. stub_parse t),
      fen = (\<lambda>p. ''startpos''),
      uci = (\<lambda>m. ''0000'')\<rparr>"

definition one_move_chess :: "nat chess" where
  "one_move_chess = stub_chess\<lparr>legal_moves := (\<lambda>p. [e2e4])\<rparr>"

definition white_board :: "nat board" where
  "white_board = \<lparr>position = 0, move_stack = []\<rparr>"

definition black_board :: "nat board" where
  "black_board = \<lparr>position = 1, move_stack = []\<rparr>"

text \<open>\<^verbatim>\<open>board.peek()\<close>, for the stub engines: the last move played, if any.\<close>

definition peek :: "'s board \<Rightarrow> move option" where
  "peek b = (if move_stack b = [] then None else Some (fst (last (move_stack b))))"

definition cp_info :: "int \<Rightarrow> move list \<Rightarrow> info" where
  "cp_info x line = \<lparr>score = Some \<lparr>relative = Cp x, pov_turn = White\<rparr>, pv = Some line\<rparr>"


text \<open>Times out after d2d4, scores 30 after e2e4 and -20 otherwise.\<close>

definition faulty_engine :: "nat engine" where
  "faulty_engine =
     \<lparr>analyse = (\<lambda>b. if peek b = Some d2d4 then Inl TimeoutError
                      else Inr (cp_info (if peek b = Some e2e4 then 30 else - 20) [])),
      analyse_multipv = (\<lambda>b n. Inl TimeoutError)\<rparr>"


text \<open>From White's point of view: -100 after e7e5, 0 after any other move.\<close>

definition black_engine :: "nat engine" where
  "black_engine =
     \<lparr>analyse = (\<lambda>b. Inr (cp_info (if peek b = Some e7e5 then - 100 else 0) [])),
      analyse_multipv = (\<lambda>b n. Inl EngineError)\<rparr>"

text \<open>
  Suggests the king's pawn of the side to move and scores 0, but its answer after
  d7d5 has neither score nor line.
\<close>

definition scoreless_engine :: "nat engine" where
  "scoreless_engine =
     \<lparr>analyse = (\<lambda>b. if peek b = Some d7d5 then Inr \<lparr>score = None, pv = None\<rparr>
                      else Inr (cp_info 0 [if even (position b) then e2e4 else e7e5])),
      analyse_multipv = (\<lambda>b n. Inl EngineError)\<rparr>"

text \<open>Three lines: d2d4, castling, and one without moves.\<close>

definition three_line_engine :: "nat engine" where
  "three_line_engine =
     \<lparr>analyse = (\<lambda>b. Inr (cp_info 0 [d2d4])),
      analyse_multipv = (\<lambda>b n. Inr [cp_info 10 [d2d4, d7d5], cp_info 5 [e1g1],
                                      neutral_info])\<rparr>"

definition games :: "int \<Rightarrow> int \<Rightarrow> int \<Rightarrow> string \<Rightarrow> move_data" where
  "games w d l t = \<lparr>white = Some w, draws = Some d, black = Some l, san = Some t\<rparr>"

text \<open>An explorer that lists castling under both of its spellings.\<close>

definition castling_twice :: "string \<Rightarrow> exn + explorer_data" where
  "castling_twice f = Inr \<lparr>moves = Some [games 10 5 3 ''O-O'', games 4 1 2 ''0-0'']\<rparr>"


text \<open>An explorer with two different moves, the less played one first.\<close>

definition two_moves :: "string \<Rightarrow> exn + explorer_data" where
  "two_moves f = Inr \<lparr>moves = Some [games 9 6 3 ''e4'', games 20 7 3 ''d4'', games 1 0 0 ''Qh5'']\<rparr>"

section \<open>Facts about the evaluator\<close>

lemma pop_push: "pop (push lib b m) = Inr b"
  by (simp add: pop_def push_def)

lemma scan_alternatives_scores:
  "\<forall>a \<in> set alts. move_score lib eng b a = Inr (sc a) \<Longrightarrow>
   scan_alternatives lib eng b alts acc = (Inr (acc @ map (\<lambda>a. (a, sc a)) alts), b)"
  by (induction alts arbitrary: acc) (simp_all add: pop_push)

lemma scan_alternatives_board:
  "scan_alternatives lib eng b alts acc = (Inr r, b') \<Longrightarrow> b' = b"
  by (induction alts arbitrary: acc) (auto simp: pop_push split: sum.splits)

lemma scan_alternatives_raise:
  "scan_alternatives lib eng b alts acc = (Inl e, b') \<Longrightarrow>
   \<exists>alt \<in> set alts. b' = push lib b alt"
proof (induction alts arbitrary: acc)
  case Nil
  then show ?case by simp
next
  case (Cons alt alts)
  show ?case
  proof (cases "move_score lib eng b alt")
    case (Inl e')
    with Cons.prems show ?thesis by simp
  next
    case (Inr s)
    with Cons.prems Cons.IH show ?thesis by (auto simp: pop_push)
  qed
qed

lemma py_max_Max: "py_max x ys = Max (set (x # ys))"
proof (induction ys arbitrary: x)
  case Nil
  show ?case by simp
next
  case (Cons y ys)
  have "Max (insert x (insert y (set ys))) = max x (Max (insert y (set ys)))"
    by (simp add: Max_insert)
  also have "\<dots> = Max (insert (max x y) (set ys))"
    by (cases "set ys = {}") (simp_all add: max.assoc)
  finally show ?case using Cons.IH [of "if x < y then y else x"]
    by (simp add: max_def not_less split: if_splits)
qed

lemma filter_scored:
  "filter (\<lambda>(m, s). m \<noteq> mv) (map (\<lambda>a. (a, sc a)) alts) =
   map (\<lambda>a. (a, sc a)) (filter (\<lambda>a. a \<noteq> mv) alts)"
  by (induction alts) simp_all

lemma best_alternative:
  assumes "filter (\<lambda>(m, s). m \<noteq> mv) (map (\<lambda>a. (a, sc a)) alts) = (m, s) # rest"
  shows "py_max s (map snd rest) = Max (sc ` {a \<in> set alts. a \<noteq> mv})"
proof -
  have "set (s # map snd rest) = set (map snd ((m, s) # rest))" by simp
  also have "\<dots> = set (map snd (map (\<lambda>a. (a, sc a)) (filter (\<lambda>a. a \<noteq> mv) alts)))"
    using assms by (simp only: filter_scored)
  also have "\<dots> = sc ` {a \<in> set alts. a \<noteq> mv}" by (auto simp: image_iff)
  finally show ?thesis by (simp only: py_max_Max)
qed

text \<open>
  The evaluator in closed form, when the candidate and every legal move get a
  Score: the board comes back as it was passed.
\<close>

lemma evaluate_closed_form:
  assumes "\<forall>a \<in> set (mv # legal_moves lib (position board)). move_score lib eng board a = Inr (sc a)"
  shows "evaluate_move_criticality lib eng board mv threshold =
     (case filter (\<lambda>(m, s). m \<noteq> mv) (map (\<lambda>a. (a, sc a)) (legal_moves lib (position board))) of
        [] \<Rightarrow> (Inr (False, 0), board)
      | (m, s) # rest \<Rightarrow>
          (Inr (threshold \<le> sc mv - py_max s (map snd rest), sc mv - py_max s (map snd rest)),
           board))"
proof -
  let ?legal = "legal_moves lib (position board)"
  have best: "move_score lib eng board mv = Inr (sc mv)" using assms by simp
  have scan: "scan_alternatives lib eng board ?legal [] = (Inr (map (\<lambda>a. (a, sc a)) ?legal), board)"
    using assms scan_alternatives_scores [of ?legal lib eng board sc "[]"] by simp
  show ?thesis
    unfolding evaluate_move_criticality_def
    by (simp add: best pop_push scan Let_def split: list.splits)
qed

lemma carries_score_move_score:
  "carries_score eng (push lib b a) \<Longrightarrow> \<exists>s. move_score lib eng b a = Inr s"
  by (auto simp: carries_score_def move_score_def analyse_or_neutral_def white_score_def
        neutral_info_def split: sum.splits option.splits)


lemma evaluate_returns:
  assumes "\<forall>a \<in> set (mv # legal_moves lib (position board)). carries_score eng (push lib board a)"
  shows "\<exists>v. evaluate_move_criticality lib eng board mv threshold = (Inr v, board)"
proof -
  define sc where "sc a = projr (move_score lib eng board a)" for a
  have scores: "\<forall>a \<in> set (mv # legal_moves lib (position board)).
                  move_score lib eng board a = Inr (sc a)"
  proof
    fix a assume "a \<in> set (mv # legal_moves lib (position board))"
    then obtain s where "move_score lib eng board a = Inr s"
      using assms carries_score_move_score [of eng lib board a] by blast
    then show "move_score lib eng board a = Inr (sc a)" by (simp add: sc_def)
  qed
  show ?thesis
    unfolding evaluate_closed_form [OF scores] by (auto split: list.splits)
qed

text \<open>A verdict comes with the board restored; an exception comes with a move pushed.\<close>

lemma evaluate_Inr_board:
  "evaluate_move_criticality lib eng board mv threshold = (Inr v, b) \<Longrightarrow> b = board"
  unfolding evaluate_move_criticality_def
  by (auto simp: pop_push Let_def split: sum.splits prod.splits list.splits
        dest: scan_alternatives_board)

lemma evaluate_Inl_board:
  assumes "evaluate_move_criticality lib eng board mv threshold = (Inl e, b)"
  shows "\<exists>a \<in> set (mv # legal_moves lib (position board)). b = push lib board a"
proof (cases "move_score lib eng board mv")
  case (Inl e')
  with assms show ?thesis by (auto simp: evaluate_move_criticality_def)
next
  case (Inr s)
  with assms show ?thesis
    by (auto simp: evaluate_move_criticality_def pop_push Let_def
          split: sum.splits prod.splits list.splits dest: scan_alternatives_raise)
qed





lemmas stub_moves = e2e4_def d2d4_def e1g1_def e7e5_def d7d5_def

lemmas stub_simps =
  stub_chess_def one_move_chess_def white_board_def black_board_def peek_def cp_info_def
  push_def move_score_def analyse_or_neutral_def white_score_def neutral_info_def
  pov_white_def carries_score_def stub_moves

lemmas evaluate_simps = evaluate_move_criticality_def pop_def








text \<open>
  Claim C9, at an input where it fails. Black is to move, the candidate is e7e5,
  and the answer of the stub engine after the alternative d7d5 has no score: the
  lookup at line 119 raises \<^verbatim>\<open>KeyError\<close> after the push of line 114, the pop of
  line 122 is not reached, and the caller's board keeps d7d5 on its stack.
\<close>

theorem evaluate_leaves_move_pushed:
  "move_stack black_board = []
   \<and> legal_moves stub_chess (position black_board) = [e7e5, d7d5]
   \<and> fst (evaluate_move_criticality stub_chess scoreless_engine black_board e7e5 50) = Inl KeyError
   \<and> snd (evaluate_move_criticality stub_chess scoreless_engine black_board e7e5 50)
       = push stub_chess black_board d7d5
   \<and> move_stack (snd (evaluate_move_criticality stub_chess scoreless_engine black_board e7e5 50))
       = [(d7d5, 1)]"
  by (simp add: evaluate_simps stub_simps scoreless_engine_def)

text \<open>
  Claim C2, at a position with Black to move. From White's point of view the
  engine scores -100 after e7e5 and 0 after d7d5, the only other legal move: for
  Black, d7d5 is worse than e7e5 by 100. With threshold 50 the evaluator calls
  e7e5 not critical, with margin -100, and calls d7d5 critical, with margin 100.
\<close>

theorem black_to_move_not_forced:
  "turn stub_chess (position black_board) = Black
   \<and> legal_moves stub_chess (position black_board) = [e7e5, d7d5]
   \<and> move_score stub_chess black_engine black_board e7e5 = Inr (- 100)
   \<and> move_score stub_chess black_engine black_board d7d5 = Inr 0
   \<and> 50 \<le> for_mover Black (- 100) - for_mover Black 0
   \<and> fst (evaluate_move_criticality stub_chess black_engine black_board e7e5 50)
       = Inr (False, - 100)
   \<and> fst (evaluate_move_criticality stub_chess black_engine black_board d7d5 50)
       = Inr (True, 100)"
  by (simp add: evaluate_simps stub_simps black_engine_def for_mover_def)

text \<open>
  What the verdict says for either side: the move is critical exactly when
  White's Score after it exceeds White's Score after every other legal move by
  the threshold, whoever is to move.
\<close>

lemma critical_from_white_view:
  assumes scores: "\<forall>a \<in> set (mv # legal_moves lib (position board)).
                     move_score lib eng board a = Inr (sc a)"
      and alt: "\<exists>a \<in> set (legal_moves lib (position board)). a \<noteq> mv"
  shows "\<exists>d. fst (evaluate_move_criticality lib eng board mv threshold) =
           Inr ((\<forall>a \<in> set (legal_moves lib (position board)).
                   a \<noteq> mv \<longrightarrow> threshold \<le> sc mv - sc a), d)"
proof -
  let ?legal = "legal_moves lib (position board)"
  let ?scored = "map (\<lambda>a. (a, sc a)) ?legal"
  let ?S = "sc ` {a \<in> set ?legal. a \<noteq> mv}"
  have "filter (\<lambda>(m, s). m \<noteq> mv) ?scored \<noteq> []"
    using alt by (auto simp: filter_scored filter_empty_conv)
  then obtain m s rest where split: "filter (\<lambda>(m, s). m \<noteq> mv) ?scored = (m, s) # rest"
    by (cases "filter (\<lambda>(m, s). m \<noteq> mv) ?scored") auto
  have fin: "finite ?S" and ne: "?S \<noteq> {}" using alt by auto
  have "threshold \<le> sc mv - Max ?S \<longleftrightarrow> Max ?S \<le> sc mv - threshold"
    by linarith
  also have "\<dots> \<longleftrightarrow> (\<forall>x \<in> ?S. x \<le> sc mv - threshold)"
    by (rule Max_le_iff [OF fin ne])
  also have "\<dots> \<longleftrightarrow> (\<forall>a \<in> set ?legal. a \<noteq> mv \<longrightarrow> threshold \<le> sc mv - sc a)"
    by auto
  finally show ?thesis
    unfolding evaluate_closed_form [OF scores] by (simp add: split best_alternative [OF split])
qed

section \<open>Facts about the walker\<close>

lemma pv_round_Recorded:
  assumes "pv_round lib eng t b = Recorded entry b'"
  shows "\<exists>m. b' = push lib b m \<and> fst entry = san_or_str lib b m"
proof -
  from assms obtain m v b1 where
    ev: "evaluate_move_criticality lib eng b m t = (Inr v, b1)"
    and b': "b' = push lib b1 m" and entry: "fst entry = san_or_str lib b1 m"
    by (auto simp: pv_round_def split: sum.splits option.splits list.splits prod.splits)
  from ev have "b1 = b" by (rule evaluate_Inr_board)
  with b' entry show ?thesis by blast
qed

lemma pv_round_Break:
  assumes usable: "\<forall>b. carries_score eng b"
      and break: "pv_round lib eng t b = Break b'"
  shows "b' = b"
proof (rule ccontr)
  assume "b' \<noteq> b"
  with break obtain m e where "evaluate_move_criticality lib eng b m t = (Inl e, b')"
    by (auto simp: pv_round_def split: sum.splits option.splits list.splits prod.splits)
  moreover obtain v where "evaluate_move_criticality lib eng b m t = (Inr v, b)"
    using evaluate_returns [of m lib b eng t] usable by auto
  ultimately show False by simp
qed


lemma follow_pv_unfold:
  "0 < n \<Longrightarrow> follow_pv lib eng t n b acc =
     (case pv_round lib eng t b of
        Break b' \<Rightarrow> (acc, b')
      | Recorded entry b' \<Rightarrow> follow_pv lib eng t (n - 1) b' (acc @ [entry]))"
  by (cases n) (simp_all split: round.splits)

lemma follow_pv_length:
  "length (fst (follow_pv lib eng t n b acc)) \<le> length acc + n"
proof (induction n arbitrary: b acc)
  case 0
  show ?case by simp
next
  case (Suc n)
  show ?case
  proof (cases "pv_round lib eng t b")
    case (Break b')
    then show ?thesis by simp
  next
    case (Recorded entry b')
    then show ?thesis using Suc.IH [of b' "acc @ [entry]"] by simp
  qed
qed

lemma follow_pv_prefix:
  "\<exists>ext. fst (follow_pv lib eng t n b acc) = acc @ ext"
proof (induction n arbitrary: b acc)
  case 0
  show ?case by simp
next
  case (Suc n)
  show ?case
  proof (cases "pv_round lib eng t b")
    case (Break b')
    then show ?thesis by simp
  next
    case (Recorded entry b')
    then show ?thesis using Suc.IH [of b' "acc @ [entry]"] by auto
  qed
qed



text \<open>The record of a walk in terms of the loop.\<close>

lemma critical_info_walk:
  "critical_info (analyze_variation lib eng sb mv d t) =
     fst (follow_pv lib eng t (nat (d - 1))
            (push lib (snd (evaluate_candidate lib eng sb mv t)) mv)
            [(san_or_str lib (snd (evaluate_candidate lib eng sb mv t)) mv,
              fst (fst (evaluate_candidate lib eng sb mv t)),
              snd (fst (evaluate_candidate lib eng sb mv t)))])"
  by (simp add: analyze_variation_def Let_def split: prod.splits)

lemma final_board_walk:
  "final_board (analyze_variation lib eng sb mv d t) =
     snd (follow_pv lib eng t (nat (d - 1))
            (push lib (snd (evaluate_candidate lib eng sb mv t)) mv)
            [(san_or_str lib (snd (evaluate_candidate lib eng sb mv t)) mv,
              fst (fst (evaluate_candidate lib eng sb mv t)),
              snd (fst (evaluate_candidate lib eng sb mv t)))])"
  by (simp add: analyze_variation_def Let_def split: prod.splits)

lemma record_valid:
  "critical_info (analyze_variation lib eng sb mv d t) \<noteq> []
   \<and> moves_san (analyze_variation lib eng sb mv d t)
       = map fst (critical_info (analyze_variation lib eng sb mv d t))
   \<and> critical_count (analyze_variation lib eng sb mv d t)
       = length (filter (\<lambda>(m, is_crit, diff). is_crit)
           (critical_info (analyze_variation lib eng sb mv d t)))"
proof -
  have "critical_info (analyze_variation lib eng sb mv d t) \<noteq> []"
    unfolding critical_info_walk
    using follow_pv_prefix [of lib eng t "nat (d - 1)"
        "push lib (snd (evaluate_candidate lib eng sb mv t)) mv"
        "[(san_or_str lib (snd (evaluate_candidate lib eng sb mv t)) mv,
           fst (fst (evaluate_candidate lib eng sb mv t)),
           snd (fst (evaluate_candidate lib eng sb mv t)))]"]
    by auto
  then show ?thesis
    by (simp add: analyze_variation_def Let_def split: prod.splits)
qed

lemmas walk_simps =
  follow_pv_unfold Let_def analyze_variation_def evaluate_candidate_def evaluate_simps
  pv_round_def san_or_str_def stub_san_def stops_at_def generate_plan_explanation_def

text \<open>
  Claim C8. For a depth of at least 1 the walk returns a record with at most that
  many entries. The walk always returns: it is a total function, its loops being
  recursions over the rounds left and over the list of legal moves.
\<close>

theorem walk_depth_bound:
  assumes "1 \<le> d"
  shows "int (length (critical_info (analyze_variation lib eng sb mv d t))) \<le> d"
proof -
  have "length (critical_info (analyze_variation lib eng sb mv d t)) \<le> 1 + nat (d - 1)"
    unfolding critical_info_walk
    using follow_pv_length [of lib eng t "nat (d - 1)"
        "push lib (snd (evaluate_candidate lib eng sb mv t)) mv"
        "[(san_or_str lib (snd (evaluate_candidate lib eng sb mv t)) mv,
           fst (fst (evaluate_candidate lib eng sb mv t)),
           snd (fst (evaluate_candidate lib eng sb mv t)))]"]
    by simp
  with assms show ?thesis by linarith
qed

text \<open>At depth 0 the candidate is still recorded: the bound needs a depth of at least 1.\<close>

lemma walk_depth_zero:
  "length (critical_info (analyze_variation lib eng sb mv 0 t)) = 1"
  unfolding critical_info_walk by simp

text \<open>An engine that always has a move to suggest fills the three plies of depth 3.\<close>

theorem walk_depth_bound_witness:
  "critical_info (analyze_variation stub_chess three_line_engine white_board e2e4 3 50)
     = [(''e4'', False, 0), (''d4'', False, 0), (''d4'', False, 0)]
   \<and> int (length (critical_info (analyze_variation stub_chess three_line_engine white_board e2e4 3 50)))
       \<le> 3"
proof -
  have "(1::int) \<le> 3" by simp
  from walk_depth_bound [OF this, of stub_chess three_line_engine white_board e2e4 50]
  show ?thesis by (simp add: walk_simps stub_simps three_line_engine_def)
qed



text \<open>
  A round that stops because the evaluation raises: the record of the walk is the
  same at depths 1 and 3, the candidate alone.
\<close>

lemma walk_stops_on_raise:
  "stops_at stub_chess scoreless_engine 50
     (final_board (analyze_variation stub_chess scoreless_engine white_board e2e4 1 50))
   \<and> critical_info (analyze_variation stub_chess scoreless_engine white_board e2e4 1 50)
       = [(''e4'', False, 0)]
   \<and> critical_info (analyze_variation stub_chess scoreless_engine white_board e2e4 3 50)
       = [(''e4'', False, 0)]"
  by (simp add: walk_simps stub_simps scoreless_engine_def)

text \<open>
  Claim C10, at an input where it fails. The walk starts with e2e4 and the engine
  suggests e7e5, a legal move. While e7e5 is evaluated, the answer after the
  alternative d7d5 has no score: \<^verbatim>\<open>KeyError\<close> at line 119 leaves d7d5 pushed, the
  handler of lines 298-299 ends the loop, and the final board holds e2e4 and d7d5
  while the record has the single entry e4.
\<close>

theorem walk_keeps_unrecorded_move:
  "analyse scoreless_engine (push stub_chess white_board e2e4) = Inr (cp_info 0 [e7e5])
   \<and> legal_moves stub_chess (position (push stub_chess white_board e2e4)) = [e7e5, d7d5]
   \<and> critical_info (analyze_variation stub_chess scoreless_engine white_board e2e4 3 50)
       = [(''e4'', False, 0)]
   \<and> final_board (analyze_variation stub_chess scoreless_engine white_board e2e4 3 50)
       = foldl (push stub_chess) white_board [e2e4, d7d5]
   \<and> moves_since white_board
        (final_board (analyze_variation stub_chess scoreless_engine white_board e2e4 3 50))
       = [e2e4, d7d5]"
  by (simp add: walk_simps stub_simps scoreless_engine_def moves_since_def)

text \<open>
  When every answer of the engine has a score, no evaluation raises, and the final
  board is the start board with the moves of the walk pushed in order, one for
  each entry of the record.
\<close>

lemma follow_pv_moves:
  assumes "\<forall>b. carries_score eng b"
  shows "\<exists>ms. snd (follow_pv lib eng t n b acc) = foldl (push lib) b ms
            \<and> map fst (fst (follow_pv lib eng t n b acc)) = map fst acc @ san_line lib b ms"
proof (induction n arbitrary: b acc)
  case 0
  have "snd (follow_pv lib eng t 0 b acc) = foldl (push lib) b []
        \<and> map fst (fst (follow_pv lib eng t 0 b acc)) = map fst acc @ san_line lib b []"
    by simp
  then show ?case by blast
next
  case (Suc n)
  show ?case
  proof (cases "pv_round lib eng t b")
    case (Break b')
    then have "b' = b" using pv_round_Break [OF assms] by blast
    with Break have "snd (follow_pv lib eng t (Suc n) b acc) = foldl (push lib) b []
        \<and> map fst (fst (follow_pv lib eng t (Suc n) b acc)) = map fst acc @ san_line lib b []"
      by simp
    then show ?thesis by blast
  next
    case (Recorded entry b')
    obtain m where m: "b' = push lib b m" "fst entry = san_or_str lib b m"
      using pv_round_Recorded [OF Recorded] by blast
    obtain ms where ms: "snd (follow_pv lib eng t n b' (acc @ [entry])) = foldl (push lib) b' ms"
      "map fst (fst (follow_pv lib eng t n b' (acc @ [entry])))
         = map fst (acc @ [entry]) @ san_line lib b' ms"
      using Suc.IH [of b' "acc @ [entry]"] by blast
    have "snd (follow_pv lib eng t (Suc n) b acc) = foldl (push lib) b (m # ms)
        \<and> map fst (fst (follow_pv lib eng t (Suc n) b acc)) = map fst acc @ san_line lib b (m # ms)"
      using Recorded m ms by simp
    then show ?thesis by blast
  qed
qed

lemma evaluate_candidate_board:
  "\<forall>b. carries_score eng b \<Longrightarrow> snd (evaluate_candidate lib eng sb mv t) = sb"
  using evaluate_returns [of mv lib sb eng t] by (auto simp: evaluate_candidate_def)

lemma move_stack_foldl_push:
  "map fst (move_stack (foldl (push lib) b ms)) = map fst (move_stack b) @ ms"
  by (induction ms arbitrary: b) (simp_all add: push_def)

lemma moves_since_foldl_push: "moves_since b (foldl (push lib) b ms) = ms"
proof -
  have "moves_since b (foldl (push lib) b ms)
          = drop (length (map fst (move_stack b))) (map fst (move_stack (foldl (push lib) b ms)))"
    by (simp add: moves_since_def drop_map)
  then show ?thesis by (simp only: move_stack_foldl_push append_eq_conv_conj drop_append) simp
qed

lemma length_san_line: "length (san_line lib b ms) = length ms"
  by (induction ms arbitrary: b) simp_all

lemma walk_final_board_scored:
  assumes usable: "\<forall>b. carries_score eng b"
      and r: "r = analyze_variation lib eng sb mv d t"
      and ms: "ms = moves_since sb (final_board r)"
  shows "final_board r = foldl (push lib) sb ms
       \<and> length ms = length (critical_info r)
       \<and> moves_san r = san_line lib sb ms
       \<and> hd ms = mv"
proof -
  let ?e = "(san_or_str lib sb mv, fst (fst (evaluate_candidate lib eng sb mv t)),
             snd (fst (evaluate_candidate lib eng sb mv t)))"
  have sb: "snd (evaluate_candidate lib eng sb mv t) = sb"
    by (rule evaluate_candidate_board [OF usable])
  obtain rest where rest:
    "snd (follow_pv lib eng t (nat (d - 1)) (push lib sb mv) [?e])
       = foldl (push lib) (push lib sb mv) rest"
    "map fst (fst (follow_pv lib eng t (nat (d - 1)) (push lib sb mv) [?e]))
       = map fst [?e] @ san_line lib (push lib sb mv) rest"
    using follow_pv_moves [OF usable, of lib t "nat (d - 1)" "push lib sb mv" "[?e]"] by blast
  have fb: "final_board r = foldl (push lib) sb (mv # rest)"
    using rest(1) unfolding r final_board_walk sb by simp
  have info: "moves_san r = map fst (critical_info r)"
    using record_valid [of lib eng sb mv d t] by (simp add: r)
  have names: "moves_san r = san_line lib sb (mv # rest)"
    using rest(2) unfolding info unfolding r critical_info_walk sb by simp
  have "ms = mv # rest"
    unfolding ms fb by (rule moves_since_foldl_push)
  moreover have "length (critical_info r) = length (mv # rest)"
    using names info length_san_line [of lib sb "mv # rest"] by (metis length_map)
  ultimately show ?thesis using fb names by simp
qed

section \<open>Facts about the selector\<close>



lemma distinct_engine_candidates:
  "distinct acc \<Longrightarrow> distinct (engine_candidates infos acc)"
  by (induction infos arbitrary: acc) (simp_all split: option.splits list.splits)


lemma length_py_take: "0 \<le> n \<Longrightarrow> int (length (py_take n xs)) \<le> n"
  by (simp add: py_take_def)

lemma distinct_py_take: "distinct xs \<Longrightarrow> distinct (py_take n xs)"
  by (simp add: py_take_def)

lemmas candidate_simps =
  get_variation_candidates_def database_candidates_def query_lichess_openings_def
  sorted_by_games_def total_games_def games_def py_take_def stub_parse_def Let_def
  stub_chess_def white_board_def cp_info_def neutral_info_def



text \<open>
  Claim C3, as stated, fails: an explorer that lists castling as O-O and as 0-0
  gives the same move twice, and the result keeps both.
\<close>

theorem duplicate_candidates:
  "get_variation_candidates stub_chess castling_twice faulty_engine white_board 3 = [e1g1, e1g1]
   \<and> \<not> distinct (get_variation_candidates stub_chess castling_twice faulty_engine white_board 3)"
  by (simp add: candidate_simps castling_twice_def faulty_engine_def)

text \<open>
  Claim C3, amended. For a requested number of at least 0 the result has at most
  that many moves; and it has no duplicates whenever the moves taken from the
  explorer are pairwise different: the moves of the engine never add one.
\<close>

theorem candidates_bounded_distinct:
  assumes "0 \<le> n"
  shows "int (length (get_variation_candidates lib http_get eng b n)) \<le> n
       \<and> (distinct (database_candidates lib http_get b n)
            \<longrightarrow> distinct (get_variation_candidates lib http_get eng b n))"
  using assms
  by (simp add: get_variation_candidates_def Let_def length_py_take distinct_py_take
        distinct_engine_candidates split: sum.splits)

text \<open>
  Two different moves from the explorer and a third from the engine; and the
  length bound where the explorer repeats a move.
\<close>

theorem candidates_bounded_distinct_witness:
  "database_candidates stub_chess two_moves white_board 3 = [d2d4, e2e4]
   \<and> get_variation_candidates stub_chess two_moves three_line_engine white_board 3
       = [d2d4, e2e4, e1g1]
   \<and> distinct (get_variation_candidates stub_chess two_moves three_line_engine white_board 3)
   \<and> int (length (get_variation_candidates stub_chess castling_twice faulty_engine white_board 1))
       \<le> 1"
proof -
  have db: "database_candidates stub_chess two_moves white_board 3 = [d2d4, e2e4]"
    by (simp add: candidate_simps two_moves_def)
  then have different: "distinct (database_candidates stub_chess two_moves white_board 3)"
    by (simp add: stub_moves)
  have n: "(0::int) \<le> 3" by simp
  have m: "(0::int) \<le> 1" by simp
  have "get_variation_candidates stub_chess two_moves three_line_engine white_board 3
          = [d2d4, e2e4, e1g1]"
    by (simp add: candidate_simps two_moves_def three_line_engine_def stub_moves)
  with candidates_bounded_distinct [OF n, of stub_chess two_moves three_line_engine white_board]
    candidates_bounded_distinct [OF m, of stub_chess castling_twice faulty_engine white_board]
    db different
  show ?thesis by simp
qed

text \<open>
  A negative count is a slice from the end: with -1 the two moves that parse
  lose their last, and one move is more than -1.
\<close>

lemma negative_count_slice:
  "get_variation_candidates stub_chess two_moves three_line_engine white_board (- 1) = [d2d4]"
  by (simp add: candidate_simps two_moves_def three_line_engine_def stub_moves)

end
